theory Spec2Isabelle
  imports Complex_Main "HOL-Library.Multiset" "HOL-Library.Word"
begin

section \<open>palettecraft.core: colours, hex strings, palette extraction, complements\<close>

text \<open>
  A shallow embedding of \<^verbatim>\<open>src/palettecraft/core.py\<close>.

  Conventions of the embedding:
  \<^item> a Python \<^verbatim>\<open>int\<close> is an \<open>int\<close>; an RGB tuple is a triple of \<open>int\<close>;
  \<^item> a Python \<^verbatim>\<open>str\<close> is a \<open>string\<close>, each \<open>char\<close> read as the code point of the same
    number, so the strings covered are those over code points below 256;
  \<^item> an exception is the \<open>Inl\<close> branch of a sum type;
  \<^item> a Python \<^verbatim>\<open>float\<close> is a \<open>real\<close>. Where a result depends on how the float
    arithmetic rounds (the sort key of \<^verbatim>\<open>extract_palette\<close>), the rounding is a parameter
    of the definition; in \<^verbatim>\<open>complementary_color\<close> the float operations are read as
    the exact operations on the reals.
\<close>

subsection \<open>Errors\<close>

datatype py_error = ValueError | ZeroDivisionError

subsection \<open>PaletteColor, rgb_to_hex\<close>

type_synonym rgb = "int \<times> int \<times> int"

record PaletteColor =
  rgb :: rgb

definition hex_digit :: "nat \<Rightarrow> char" where
  "hex_digit d = ''0123456789abcdef'' ! d"

text \<open>The lowercase hexadecimal digits of a natural number, most significant first.\<close>

function hex_of_nat :: "nat \<Rightarrow> string" where
  "hex_of_nat n = (if n < 16 then [hex_digit n] else hex_of_nat (n div 16) @ [hex_digit (n mod 16)])"
  by pat_completeness auto
termination
  by (relation "measure (\<lambda>n. n)") auto

declare hex_of_nat.simps [simp del]

text \<open>
  The format specification \<^verbatim>\<open>02x\<close> of \<^verbatim>\<open>f"{c:02x}"\<close>: lowercase hexadecimal, a minus
  sign for a negative number, and zeros between the sign and the digits up to a total
  width of two characters. Wider numbers are not cut.
\<close>

definition format_02x :: "int \<Rightarrow> string" where
  "format_02x c =
     (let sign = (if c < 0 then ''-'' else '''');
          digits = hex_of_nat (nat \<bar>c\<bar>)
      in sign @ replicate (2 - length sign - length digits) CHR ''0'' @ digits)"

definition rgb_to_hex :: "rgb \<Rightarrow> string" where
  "rgb_to_hex color = (case color of (r, g, b) \<Rightarrow> ''#'' @ concat (map format_02x [r, g, b]))"

definition to_hex :: "PaletteColor \<Rightarrow> string" where
  "to_hex self = rgb_to_hex (rgb self)"

subsection \<open>hex_to_rgb\<close>

text \<open>
  Python's \<^verbatim>\<open>int(s, 16)\<close> on a \<^verbatim>\<open>str\<close>: white space is stripped at both ends, one
  sign may follow, then an optional prefix \<^verbatim>\<open>0x\<close> or \<^verbatim>\<open>0X\<close> (with one underscore allowed
  after it), then at least one hexadecimal digit, with single underscores allowed between
  digits. Anything else raises \<^verbatim>\<open>ValueError\<close> (\<open>None\<close> here).
\<close>

definition int_space :: "char \<Rightarrow> bool" where
  "int_space c = ((of_char c :: nat) \<in> {9, 10, 11, 12, 13, 32, 133, 160})"

definition hex_val :: "char \<Rightarrow> nat option" where
  "hex_val c =
     (let n = (of_char c :: nat)
      in if 48 \<le> n \<and> n \<le> 57 then Some (n - 48)
         else if 97 \<le> n \<and> n \<le> 102 then Some (n - 87)
         else if 65 \<le> n \<and> n \<le> 70 then Some (n - 55)
         else None)"

fun int_digits :: "nat \<Rightarrow> string \<Rightarrow> nat option" where
  "int_digits acc [] = Some acc"
| "int_digits acc [c] =
     (case hex_val c of None \<Rightarrow> None | Some v \<Rightarrow> Some (16 * acc + v))"
| "int_digits acc (c # d # ds) =
     (if c = CHR ''_''
      then (case hex_val d of None \<Rightarrow> None | Some v \<Rightarrow> int_digits (16 * acc + v) ds)
      else (case hex_val c of None \<Rightarrow> None | Some v \<Rightarrow> int_digits (16 * acc + v) (d # ds)))"

definition int_strip :: "string \<Rightarrow> string" where
  "int_strip s = rev (dropWhile int_space (rev (dropWhile int_space s)))"

definition int_sign :: "string \<Rightarrow> int \<times> string" where
  "int_sign s =
     (case s of
        c # cs \<Rightarrow> (if c = CHR ''+'' then (1, cs) else if c = CHR ''-'' then (- 1, cs) else (1, s))
      | [] \<Rightarrow> (1, s))"

definition int_prefix :: "string \<Rightarrow> string" where
  "int_prefix s =
     (case s of
        c # x # cs \<Rightarrow>
          (if c = CHR ''0'' \<and> (x = CHR ''x'' \<or> x = CHR ''X'')
           then (case cs of u # us \<Rightarrow> (if u = CHR ''_'' then us else cs) | [] \<Rightarrow> cs)
           else s)
      | _ \<Rightarrow> s)"

definition int16 :: "string \<Rightarrow> int option" where
  "int16 s =
     (case int_sign (int_strip s) of
        (sg, t) \<Rightarrow>
          (case int_prefix t of
             [] \<Rightarrow> None
           | d # ds \<Rightarrow>
               (case hex_val d of
                  None \<Rightarrow> None
                | Some v \<Rightarrow> map_option (\<lambda>n. sg * int n) (int_digits v ds))))"

text \<open>
  \<^verbatim>\<open>value.lstrip("#")\<close> removes every leading \<^verbatim>\<open>#\<close>, not only one. The three slices
  \<^verbatim>\<open>value[i : i + 2]\<close> are converted from left to right; the first that fails raises.
\<close>

definition hex_to_rgb :: "string \<Rightarrow> py_error + rgb" where
  "hex_to_rgb value =
     (let v = dropWhile (\<lambda>c. c = CHR ''#'') value
      in if length v \<noteq> 6 then Inl ValueError
         else (case int16 (take 2 (drop 0 v)) of
                 None \<Rightarrow> Inl ValueError
               | Some r \<Rightarrow>
                   (case int16 (take 2 (drop 2 v)) of
                      None \<Rightarrow> Inl ValueError
                    | Some g \<Rightarrow>
                        (case int16 (take 2 (drop 4 v)) of
                           None \<Rightarrow> Inl ValueError
                         | Some b \<Rightarrow> Inr (r, g, b)))))"


subsection \<open>extract_palette\<close>

text \<open>
  \<^verbatim>\<open>pixels\<close> is the array of line 112: one row of three \<^verbatim>\<open>uint8\<close> values per pixel.
  Decoding and resizing the image (lines 99 to 109) are not modelled; the functions below
  start from the rows.
\<close>

type_synonym pixel = "8 word \<times> 8 word \<times> 8 word"

type_synonym centroid = "real \<times> real \<times> real"

text \<open>
  \<^verbatim>\<open>KMeans(n_clusters=k, random_state=rs).fit(pixels).cluster_centers_\<close> belongs to
  scikit-learn, not to the repository: the clustering engine is a parameter. It either
  raises (\<open>Inl\<close>) or returns the list of centroids in the order in which it emits them.
  Its first argument stands for whatever the library draws on besides its arguments (the
  global random generator that is used when \<^verbatim>\<open>random_state\<close> is \<^verbatim>\<open>None\<close>); the second is
  \<^verbatim>\<open>random_state\<close>.
\<close>

type_synonym ('w, 'e) kmeans = "'w \<Rightarrow> int option \<Rightarrow> int \<Rightarrow> pixel list \<Rightarrow> 'e + centroid list"

text \<open>\<^verbatim>\<open>ndarray.astype(int)\<close> on a float array: the fraction is dropped, towards zero.\<close>

definition astype_int :: "real \<Rightarrow> int" where
  "astype_int x = (if 0 \<le> x then \<lfloor>x\<rfloor> else \<lceil>x\<rceil>)"

text \<open>
  The local function \<^verbatim>\<open>luminance\<close> (lines 119 to 121). Python evaluates
  \<^verbatim>\<open>0.2126 * r + 0.7152 * g + 0.0722 * b\<close> in double precision: each constant, each
  product and each sum is rounded. \<open>fl\<close> is that rounding; with \<open>fl = (\<lambda>x. x)\<close> the sum is
  the exact one.
\<close>

definition luminance :: "(real \<Rightarrow> real) \<Rightarrow> rgb \<Rightarrow> real" where
  "luminance fl color =
     (case color of (r, g, b) \<Rightarrow>
        fl (fl (fl (fl (2126 / 10000) * of_int r) + fl (fl (7152 / 10000) * of_int g))
            + fl (fl (722 / 10000) * of_int b)))"

text \<open>
  Lines 112 to 124. An exception of the engine is not caught. \<^verbatim>\<open>sorted(..., key=luminance)\<close>
  is a stable sort by the key, as \<open>sort_key\<close> is.
\<close>

definition extract_palette ::
    "(real \<Rightarrow> real) \<Rightarrow> ('w, 'e) kmeans \<Rightarrow> 'w \<Rightarrow> pixel list \<Rightarrow> int \<Rightarrow> 'e + PaletteColor list" where
  "extract_palette fl kmeans w pixels num_colors =
     (case kmeans w (Some 0) num_colors pixels of
        Inl e \<Rightarrow> Inl e
      | Inr cluster_centers \<Rightarrow>
          (let centers = map (\<lambda>(x, y, z). (astype_int x, astype_int y, astype_int z)) cluster_centers;
               palette_sorted = sort_key (luminance fl) centers
           in Inr (map (\<lambda>c. \<lparr>rgb = c\<rparr>) palette_sorted)))"

subsection \<open>complementary_color\<close>

text \<open>
  \<^verbatim>\<open>colorsys.rgb_to_hls\<close>, \<^verbatim>\<open>colorsys.hls_to_rgb\<close> and \<^verbatim>\<open>colorsys._v\<close> of the Python standard
  library, over the reals. \<^verbatim>\<open>x % 1.0\<close> is \<open>frac x\<close>. A division by zero raises.
\<close>

definition rgb_to_hls :: "real \<Rightarrow> real \<Rightarrow> real \<Rightarrow> py_error + real \<times> real \<times> real" where
  "rgb_to_hls r g b =
     (let maxc = max (max r g) b;
          minc = min (min r g) b;
          sumc = maxc + minc;
          rangec = maxc - minc;
          l = sumc / 2
      in if minc = maxc then Inr (0, l, 0)
         else if l \<le> 1 / 2 \<and> sumc = 0 then Inl ZeroDivisionError
         else if \<not> l \<le> 1 / 2 \<and> 2 - maxc - minc = 0 then Inl ZeroDivisionError
         else
           (let s = (if l \<le> 1 / 2 then rangec / sumc else rangec / (2 - maxc - minc));
                rc = (maxc - r) / rangec;
                gc = (maxc - g) / rangec;
                bc = (maxc - b) / rangec;
                h = (if r = maxc then bc - gc
                     else if g = maxc then 2 + rc - bc
                     else 4 + gc - rc)
            in Inr (frac (h / 6), l, s)))"

definition colorsys_v :: "real \<Rightarrow> real \<Rightarrow> real \<Rightarrow> real" where
  "colorsys_v m1 m2 hue0 =
     (let hue = frac hue0
      in if hue < 1 / 6 then m1 + (m2 - m1) * hue * 6
         else if hue < 1 / 2 then m2
         else if hue < 2 / 3 then m1 + (m2 - m1) * (2 / 3 - hue) * 6
         else m1)"

definition hls_to_rgb :: "real \<Rightarrow> real \<Rightarrow> real \<Rightarrow> real \<times> real \<times> real" where
  "hls_to_rgb h l s =
     (if s = 0 then (l, l, l)
      else
        (let m2 = (if l \<le> 1 / 2 then l * (1 + s) else l + s - l * s);
             m1 = 2 * l - m2
         in (colorsys_v m1 m2 (h + 1 / 3), colorsys_v m1 m2 h, colorsys_v m1 m2 (h - 1 / 3))))"

text \<open>Python's \<^verbatim>\<open>round(x)\<close> with one argument: the nearest integer, a tie to the even one.\<close>

definition py_round :: "real \<Rightarrow> int" where
  "py_round x =
     (let f = \<lfloor>x\<rfloor>; d = x - of_int f
      in if d < 1 / 2 then f
         else if 1 / 2 < d then f + 1
         else if even f then f else f + 1)"

definition complementary_color :: "rgb \<Rightarrow> py_error + rgb" where
  "complementary_color color =
     (case color of (cr, cg, cb) \<Rightarrow>
        (case rgb_to_hls (of_int cr / 255) (of_int cg / 255) (of_int cb / 255) of
           Inl e \<Rightarrow> Inl e
         | Inr (h, l, s) \<Rightarrow>
             (case hls_to_rgb (frac (h + 1 / 2)) l s of
                (r2, g2, b2) \<Rightarrow> Inr (py_round (r2 * 255), py_round (g2 * 255), py_round (b2 * 255)))))"

subsection \<open>The reading of a hex string that the specification describes\<close>






subsection \<open>Predicates of the statements about complements\<close>


definition valid_rgb :: "rgb \<Rightarrow> bool" where
  "valid_rgb c = (case c of (r, g, b) \<Rightarrow> 0 \<le> r \<and> r \<le> 255 \<and> 0 \<le> g \<and> g \<le> 255 \<and> 0 \<le> b \<and> b \<le> 255)"



subsection \<open>The clustering engine as the specification describes it\<close>

text \<open>
  Modelled from the spec: the clustering engine (scikit-learn's \<^verbatim>\<open>KMeans\<close>) is not part of
  the sources, so what the statements about \<^verbatim>\<open>extract_palette\<close> need of it is taken from
  section 4.2 and section 7 of the specification, as predicates on the parameter.
  \<^item> \<open>kmeans_contract\<close>: for \<open>1 \<le> k \<le>\<close> number of samples the engine returns exactly \<open>k\<close>
    centroids, each coordinate a real number from 0 to 255.
  \<^item> \<open>kmeans_failures\<close>: the engine fails with \<open>InvalidArgument\<close> when \<open>k < 1\<close> or \<open>k\<close> exceeds
    the number of samples, and with \<open>EmptyInput\<close> when there is no sample (for \<open>k < 1\<close> and
    no sample the parameter check comes first).
  \<^item> \<open>seeded_deterministic\<close>: with a fixed seed the result depends on the seed, \<open>k\<close> and the
    samples only.
\<close>

datatype engine_error = InvalidArgument | EmptyInput

definition centroid_in_range :: "centroid \<Rightarrow> bool" where
  "centroid_in_range c =
     (case c of (x, y, z) \<Rightarrow> 0 \<le> x \<and> x \<le> 255 \<and> 0 \<le> y \<and> y \<le> 255 \<and> 0 \<le> z \<and> z \<le> 255)"

definition kmeans_contract :: "('w, 'e) kmeans \<Rightarrow> bool" where
  "kmeans_contract kmeans =
     (\<forall>w rs k px. 1 \<le> k \<and> k \<le> int (length px) \<longrightarrow>
        (\<exists>cs. kmeans w rs k px = Inr cs \<and> int (length cs) = k \<and> list_all centroid_in_range cs))"

definition kmeans_failures :: "('w, engine_error) kmeans \<Rightarrow> bool" where
  "kmeans_failures kmeans =
     (\<forall>w rs k px.
        (k < 1 \<longrightarrow> kmeans w rs k px = Inl InvalidArgument)
      \<and> (1 \<le> k \<and> px = [] \<longrightarrow> kmeans w rs k px = Inl EmptyInput)
      \<and> (px \<noteq> [] \<and> int (length px) < k \<longrightarrow> kmeans w rs k px = Inl InvalidArgument))"

definition seeded_deterministic :: "('w, 'e) kmeans \<Rightarrow> bool" where
  "seeded_deterministic kmeans =
     (\<forall>w w' seed k px. kmeans w (Some seed) k px = kmeans w' (Some seed) k px)"

text \<open>
  The conversion of a centroid that the specification describes: each coordinate rounded
  to the nearest integer and clamped to the range from 0 to 255.
\<close>

definition spec_round_clamp :: "real \<Rightarrow> int" where
  "spec_round_clamp x = max 0 (min 255 (round x))"

definition spec_extract_palette ::
    "(real \<Rightarrow> real) \<Rightarrow> ('w, 'e) kmeans \<Rightarrow> 'w \<Rightarrow> pixel list \<Rightarrow> int \<Rightarrow> 'e + PaletteColor list" where
  "spec_extract_palette fl kmeans w pixels num_colors =
     (case kmeans w (Some 0) num_colors pixels of
        Inl e \<Rightarrow> Inl e
      | Inr cluster_centers \<Rightarrow>
          Inr (map (\<lambda>c. \<lparr>rgb = c\<rparr>)
                 (sort_key (luminance fl)
                    (map (\<lambda>(x, y, z). (spec_round_clamp x, spec_round_clamp y, spec_round_clamp z))
                       cluster_centers))))"

subsection \<open>Two engines to evaluate the statements on\<close>

text \<open>
  \<open>first_k_kmeans\<close> checks its arguments and returns the first \<open>k\<close> samples as centroids;
  without a seed it first rotates the samples by its first argument, so that its result
  then depends on it. \<open>mean_kmeans\<close> clusters into one cluster: the centroid is the mean of
  the samples, which is what k-means returns for \<open>k = 1\<close>.
\<close>

definition pixel_centroid :: "pixel \<Rightarrow> centroid" where
  "pixel_centroid p = (case p of (r, g, b) \<Rightarrow> (real (unat r), real (unat g), real (unat b)))"

definition first_k_kmeans :: "(nat, engine_error) kmeans" where
  "first_k_kmeans w rs k px =
     (if k < 1 then Inl InvalidArgument
      else if px = [] then Inl EmptyInput
      else if int (length px) < k then Inl InvalidArgument
      else Inr (map pixel_centroid
                  (take (nat k) (case rs of None \<Rightarrow> rotate w px | Some seed \<Rightarrow> px))))"

definition mean_kmeans :: "(nat, engine_error) kmeans" where
  "mean_kmeans w rs k px =
     (if k < 1 then Inl InvalidArgument
      else if px = [] then Inl EmptyInput
      else if k \<noteq> 1 then Inl InvalidArgument
      else Inr [(sum_list (map (\<lambda>(r, g, b). real (unat r)) px) / real (length px),
                 sum_list (map (\<lambda>(r, g, b). real (unat g)) px) / real (length px),
                 sum_list (map (\<lambda>(r, g, b). real (unat b)) px) / real (length px))])"

section \<open>Properties\<close>

subsection \<open>Hex strings\<close>

lemma nat_below_16:
  "d < 16 \<Longrightarrow> d \<in> {0, 1, 2, 3, 4, 5, 6, 7, 8, 9, 10, 11, 12, 13, 14, 15::nat}"
  by (simp only: insert_iff empty_iff) arith

lemma hex_val_hex_digit: "d < 16 \<Longrightarrow> hex_val (hex_digit d) = Some d"
  by (drule nat_below_16) (auto simp: hex_val_def hex_digit_def)

lemma hex_digit_plain:
  "d < 16 \<Longrightarrow> \<not> int_space (hex_digit d) \<and> hex_digit d \<noteq> CHR ''+'' \<and> hex_digit d \<noteq> CHR ''-''
     \<and> hex_digit d \<noteq> CHR ''_'' \<and> hex_digit d \<noteq> CHR ''x'' \<and> hex_digit d \<noteq> CHR ''X'' \<and> hex_digit d \<noteq> CHR ''#''"
  by (drule nat_below_16) (auto simp: int_space_def hex_digit_def)

lemma hex_digit_lower: "d < 16 \<Longrightarrow> hex_digit d \<in> set ''0123456789abcdef''"
  by (drule nat_below_16) (auto simp: hex_digit_def)

lemma hex_of_nat_byte:
  "n < 256 \<Longrightarrow> hex_of_nat n = (if n < 16 then [hex_digit n] else [hex_digit (n div 16), hex_digit (n mod 16)])"
proof -
  assume n: "n < 256"
  show ?thesis
  proof (cases "n < 16")
    case True
    then show ?thesis by (simp add: hex_of_nat.simps)
  next
    case False
    with n have "n div 16 < 16" by simp
    then have "hex_of_nat (n div 16) = [hex_digit (n div 16)]"
      by (simp add: hex_of_nat.simps)
    with False show ?thesis
      by (subst hex_of_nat.simps) simp
  qed
qed

lemma format_02x_byte:
  assumes "0 \<le> c" "c \<le> 255"
  shows "format_02x c = [hex_digit (nat c div 16), hex_digit (nat c mod 16)]"
proof -
  have n: "nat \<bar>c\<bar> = nat c" "nat c < 256" using assms by auto
  show ?thesis
  proof (cases "nat c < 16")
    case True
    then have "hex_digit (nat c div 16) = CHR ''0''" by (simp add: hex_digit_def)
    with True n assms show ?thesis
      by (simp add: format_02x_def hex_of_nat_byte)
  next
    case False
    with n assms show ?thesis
      by (simp add: format_02x_def hex_of_nat_byte)
  qed
qed

lemma int16_two_digits:
  assumes "a < 16" "b < 16"
  shows "int16 [hex_digit a, hex_digit b] = Some (int (16 * a + b))"
proof -
  note pa = hex_digit_plain [OF assms(1)] and pb = hex_digit_plain [OF assms(2)]
  have strip: "int_strip [hex_digit a, hex_digit b] = [hex_digit a, hex_digit b]"
    using pa pb by (simp add: int_strip_def)
  have sign: "int_sign [hex_digit a, hex_digit b] = (1, [hex_digit a, hex_digit b])"
    using pa by (simp add: int_sign_def)
  have pre: "int_prefix [hex_digit a, hex_digit b] = [hex_digit a, hex_digit b]"
    using pb by (simp add: int_prefix_def)
  show ?thesis
    using assms by (simp add: int16_def strip sign pre hex_val_hex_digit)
qed


lemma rgb_to_hex_bytes:
  assumes "0 \<le> r" "r \<le> 255" "0 \<le> g" "g \<le> 255" "0 \<le> b" "b \<le> 255"
  shows "rgb_to_hex (r, g, b) =
           [CHR ''#'', hex_digit (nat r div 16), hex_digit (nat r mod 16),
            hex_digit (nat g div 16), hex_digit (nat g mod 16),
            hex_digit (nat b div 16), hex_digit (nat b mod 16)]"
  using assms by (simp add: rgb_to_hex_def format_02x_byte)

lemma int16_byte:
  assumes "0 \<le> c" "c \<le> 255"
  shows "int16 [hex_digit (nat c div 16), hex_digit (nat c mod 16)] = Some c"
proof -
  have "nat c div 16 < 16" "nat c mod 16 < 16" using assms by auto
  then have "int16 [hex_digit (nat c div 16), hex_digit (nat c mod 16)]
               = Some (int (16 * (nat c div 16) + nat c mod 16))"
    by (rule int16_two_digits)
  also have "16 * (nat c div 16) + nat c mod 16 = nat c" by simp
  finally show ?thesis using assms by simp
qed

text \<open>
  Claim C5. For every RGB triple whose channels are integers from 0 to 255, decoding the
  hex string of the triple gives the triple back, and the hex string is \<^verbatim>\<open>#\<close> followed by
  six lowercase hexadecimal digits, two per channel.
\<close>

theorem hex_round_trip:
  assumes "0 \<le> r" "r \<le> 255" "0 \<le> g" "g \<le> 255" "0 \<le> b" "b \<le> 255"
  shows "hex_to_rgb (rgb_to_hex (r, g, b)) = Inr (r, g, b)
         \<and> length (rgb_to_hex (r, g, b)) = 7
         \<and> hd (rgb_to_hex (r, g, b)) = CHR ''#''
         \<and> set (tl (rgb_to_hex (r, g, b))) \<subseteq> set ''0123456789abcdef''
         \<and> rgb_to_hex (r, g, b) = ''#'' @ format_02x r @ format_02x g @ format_02x b
         \<and> length (format_02x r) = 2 \<and> length (format_02x g) = 2 \<and> length (format_02x b) = 2"
proof -
  let ?h = "rgb_to_hex (r, g, b)"
  note hex = rgb_to_hex_bytes [OF assms]
  have lt: "nat r div 16 < 16" "nat r mod 16 < 16" "nat g div 16 < 16" "nat g mod 16 < 16"
    "nat b div 16 < 16" "nat b mod 16 < 16"
    using assms by auto
  have no_hash: "hex_digit (nat r div 16) \<noteq> CHR ''#''"
    using hex_digit_plain [OF lt(1)] by simp
  have strip: "dropWhile (\<lambda>c. c = CHR ''#'') ?h = tl ?h"
    using no_hash by (simp add: hex)
  have decoded: "hex_to_rgb ?h = Inr (r, g, b)"
    unfolding hex_to_rgb_def strip
    using assms by (simp add: hex int16_byte)
  have lower: "set (tl ?h) \<subseteq> set ''0123456789abcdef''"
    using lt [THEN hex_digit_lower] by (simp add: hex)
  have fmt: "?h = ''#'' @ format_02x r @ format_02x g @ format_02x b"
    by (simp add: rgb_to_hex_def)
  show ?thesis
    using decoded lower fmt assms by (simp add: hex format_02x_byte)
qed

theorem hex_round_trip_witness:
  "(0::int) \<le> 255 \<and> (0::int) \<le> 0 \<and> (10::int) \<le> 255
   \<and> hex_to_rgb (rgb_to_hex (255, 0, 10)) = Inr (255, 0, 10)
   \<and> rgb_to_hex (255, 0, 10) = ''#ff000a''"
proof -
  have "rgb_to_hex (255, 0, 10) = ''#ff000a''"
    by (simp add: rgb_to_hex_def format_02x_def hex_of_nat.simps hex_digit_def)
  moreover have "hex_to_rgb (rgb_to_hex (255, 0, 10)) = Inr (255, 0, 10)"
    by (rule hex_round_trip [THEN conjunct1]) simp_all
  ultimately show ?thesis by simp
qed








text \<open>
  A six-character rest is also accepted when a slice is a sign or a white space followed
  by one digit, because the built-in \<^verbatim>\<open>int\<close> accepts these.
\<close>

lemma hex_to_rgb_signed:
  "hex_to_rgb ''-1-2-3'' = Inr (- 1, - 2, - 3)"
  by (simp add: hex_to_rgb_def int16_def int_strip_def int_sign_def int_prefix_def
        int_space_def hex_val_def)

subsection \<open>Complementary colours\<close>

lemma colorsys_v_frac: "colorsys_v m1 m2 (frac a + b) = colorsys_v m1 m2 (a + b)"
  by (simp add: colorsys_v_def)

lemma colorsys_v_unit:
  assumes "0 \<le> t" "t < 1"
  shows "colorsys_v m1 m2 t =
           (if t < 1 / 6 then m1 + (m2 - m1) * t * 6
            else if t < 1 / 2 then m2
            else if t < 2 / 3 then m1 + (m2 - m1) * (2 / 3 - t) * 6
            else m1)"
  using assms by (simp add: colorsys_v_def frac_eq [THEN iffD2])

lemma frac_plus_half:
  fixes x :: real
  shows "frac (x + 1 / 2) = (if frac x < 1 / 2 then frac x + 1 / 2 else frac x - 1 / 2)"
proof -
  have "frac (x + 1 / 2) = frac (frac x + 1 / 2)" by simp
  also have "\<dots> = (if frac x < 1 / 2 then frac x + 1 / 2 else frac x - 1 / 2)"
  proof (cases "frac x < 1 / 2")
    case True
    then have "frac (frac x + 1 / 2) = frac x + 1 / 2"
      by (intro frac_eq [THEN iffD2]) (simp add: add_nonneg_nonneg)
    with True show ?thesis by simp
  next
    case False
    have "frac x < 1" by (rule frac_lt_1)
    with False have "frac (frac x + 1 / 2) = frac x - 1 / 2"
      by (subst frac_unique_iff) auto
    with False show ?thesis by simp
  qed
  finally show ?thesis .
qed

lemma wave_half:
  fixes t m1 m2 :: real
  assumes "0 \<le> t" "t < 1"
  defines "W \<equiv> \<lambda>u. if u < 1 / 6 then m1 + (m2 - m1) * u * 6
                 else if u < 1 / 2 then m2
                 else if u < 2 / 3 then m1 + (m2 - m1) * (2 / 3 - u) * 6
                 else m1"
  shows "W (if t < 1 / 2 then t + 1 / 2 else t - 1 / 2) = m1 + m2 - W t"
proof -
  consider "t < 1 / 6" | "1 / 6 \<le> t" "t < 1 / 2" | "1 / 2 \<le> t" "t < 2 / 3" | "2 / 3 \<le> t"
    by linarith
  then show ?thesis
  proof cases
    case 1
    with assms(1) show ?thesis by (auto simp: W_def field_simps)
  next
    case 2
    then show ?thesis by (simp add: W_def)
  next
    case 3
    then show ?thesis by (auto simp: W_def field_simps)
  next
    case 4
    with assms(2) show ?thesis by (simp add: W_def)
  qed
qed

lemma colorsys_v_half: "colorsys_v m1 m2 (x + 1 / 2) = m1 + m2 - colorsys_v m1 m2 x"
  unfolding colorsys_v_def Let_def frac_plus_half
  by (rule wave_half) (simp_all add: frac_lt_1)


lemma colorsys_v_period: "colorsys_v m1 m2 (x + of_int k) = colorsys_v m1 m2 x"
proof -
  have "frac (x + of_int k) = frac x"
    by (simp add: frac_def)
  then show ?thesis by (simp add: colorsys_v_def)
qed

lemma wave_rise:
  fixes m d u x :: real
  assumes "0 \<le> u" "u \<le> 1" "x = u / 6 + of_int k"
  shows "colorsys_v m (m + d) x = m + u * d"
proof -
  have "colorsys_v m (m + d) x = colorsys_v m (m + d) (u / 6)"
    unfolding assms(3) by (rule colorsys_v_period)
  also have "\<dots> = m + u * d"
    using assms(1,2) by (subst colorsys_v_unit) auto
  finally show ?thesis .
qed

lemma wave_top1:
  fixes m d u x :: real
  assumes "0 \<le> u" "u \<le> 1" "x = u / 6 + 1 / 6 + of_int k"
  shows "colorsys_v m (m + d) x = m + d"
proof -
  have "colorsys_v m (m + d) x = colorsys_v m (m + d) (u / 6 + 1 / 6)"
    unfolding assms(3) by (rule colorsys_v_period)
  also have "\<dots> = m + d"
    using assms(1,2) by (subst colorsys_v_unit) auto
  finally show ?thesis .
qed

lemma wave_top2:
  fixes m d u x :: real
  assumes "0 \<le> u" "u \<le> 1" "x = u / 6 + 1 / 3 + of_int k"
  shows "colorsys_v m (m + d) x = m + d"
proof -
  have "colorsys_v m (m + d) x = colorsys_v m (m + d) (u / 6 + 1 / 3)"
    unfolding assms(3) by (rule colorsys_v_period)
  also have "\<dots> = m + d"
    using assms(1,2) by (subst colorsys_v_unit) auto
  finally show ?thesis .
qed

lemma wave_fall:
  fixes m d u x :: real
  assumes "0 \<le> u" "u \<le> 1" "x = u / 6 + 1 / 2 + of_int k"
  shows "colorsys_v m (m + d) x = m + d - u * d"
proof -
  have "x = (u / 6 + of_int k) + 1 / 2" using assms(3) by simp
  then have "colorsys_v m (m + d) x = m + (m + d) - colorsys_v m (m + d) (u / 6 + of_int k)"
    by (simp only: colorsys_v_half)
  also have "colorsys_v m (m + d) (u / 6 + of_int k) = m + u * d"
    using assms(1,2) by (rule wave_rise) simp
  finally show ?thesis by simp
qed

lemma wave_bot1:
  fixes m d u x :: real
  assumes "0 \<le> u" "u \<le> 1" "x = u / 6 + 2 / 3 + of_int k"
  shows "colorsys_v m (m + d) x = m"
proof -
  have "x = (u / 6 + 1 / 6 + of_int k) + 1 / 2" using assms(3) by simp
  then have "colorsys_v m (m + d) x = m + (m + d) - colorsys_v m (m + d) (u / 6 + 1 / 6 + of_int k)"
    by (simp only: colorsys_v_half)
  also have "colorsys_v m (m + d) (u / 6 + 1 / 6 + of_int k) = m + d"
    using assms(1,2) by (rule wave_top1) simp
  finally show ?thesis by simp
qed

lemma wave_bot2:
  fixes m d u x :: real
  assumes "0 \<le> u" "u \<le> 1" "x = u / 6 + 5 / 6 + of_int k"
  shows "colorsys_v m (m + d) x = m"
proof -
  have "x = (u / 6 + 1 / 3 + of_int k) + 1 / 2" using assms(3) by simp
  then have "colorsys_v m (m + d) x = m + (m + d) - colorsys_v m (m + d) (u / 6 + 1 / 3 + of_int k)"
    by (simp only: colorsys_v_half)
  also have "colorsys_v m (m + d) (u / 6 + 1 / 3 + of_int k) = m + d"
    using assms(1,2) by (rule wave_top2) simp
  finally show ?thesis by simp
qed

lemma hue_channels:
  fixes r g b :: real
  defines "M \<equiv> max (max r g) b" and "m \<equiv> min (min r g) b"
  defines "h \<equiv> (if r = M then (M - b) / (M - m) - (M - g) / (M - m)
                  else if g = M then 2 + (M - r) / (M - m) - (M - b) / (M - m)
                  else 4 + (M - g) / (M - m) - (M - r) / (M - m))"
  assumes ne: "m \<noteq> M"
  shows "colorsys_v m M (h / 6 + 1 / 3) = r"
    and "colorsys_v m M (h / 6) = g"
    and "colorsys_v m M (h / 6 - 1 / 3) = b"
proof -
  define d where "d = M - m"
  have "m \<le> M" by (simp add: M_def m_def)
  with ne have d: "0 < d" by (simp add: d_def)
  have M: "M = m + d" by (simp add: d_def)
  have bounds: "r \<le> M" "g \<le> M" "b \<le> M" "m \<le> r" "m \<le> g" "m \<le> b"
    by (simp_all add: M_def m_def)
  have div: "\<And>x. (x * d) / d = x" "\<And>x. (d - x * d) / d = 1 - x" "d / d = 1"
    using d by (simp_all add: field_simps)
  consider (rg) "r = M" "b \<le> g" | (rb) "r = M" "g < b"
    | (gb) "r \<noteq> M" "g = M" "r \<le> b" | (gr) "r \<noteq> M" "g = M" "b < r"
    | (br) "r \<noteq> M" "g \<noteq> M" "g \<le> r" | (bg) "r \<noteq> M" "g \<noteq> M" "r < g"
    by linarith
  then have "colorsys_v m M (h / 6 + 1 / 3) = r \<and> colorsys_v m M (h / 6) = g
             \<and> colorsys_v m M (h / 6 - 1 / 3) = b"
  proof cases
    case rg
    define u where "u = (g - m) / d"
    have mn: "b = m" using rg unfolding M_def m_def by linarith
    have mx: "r = M" using rg unfolding M_def by linarith
    have u: "0 \<le> u" "u \<le> 1" "g = m + u * d"
      using rg d mn mx bounds by (simp_all add: u_def d_def field_simps)
    have h: "h = u" using rg d by (simp add: h_def mn u(3) M div)
    have c0: "colorsys_v m (m + d) (h / 6 + 1 / 3) = m + d"
      by (rule wave_top2 [OF u(1,2), where k = "0"]) (simp add: h field_simps)
    have c1: "colorsys_v m (m + d) (h / 6) = m + u * d"
      by (rule wave_rise [OF u(1,2), where k = "0"]) (simp add: h field_simps)
    have c2: "colorsys_v m (m + d) (h / 6 - 1 / 3) = m"
      by (rule wave_bot1 [OF u(1,2), where k = "- 1"]) (simp add: h field_simps)
    show ?thesis using c0 c1 c2 by (simp add: mn mx u(3) M)
  next
    case rb
    define u where "u = (M - b) / d"
    have mn: "g = m" using rb unfolding M_def m_def by linarith
    have mx: "r = M" using rb unfolding M_def by linarith
    have u: "0 \<le> u" "u \<le> 1" "b = m + d - u * d"
      using rb d mn mx bounds by (simp_all add: u_def d_def field_simps)
    have h: "h = u - 1" using rb d by (simp add: h_def mn u(3) M div)
    have c0: "colorsys_v m (m + d) (h / 6 + 1 / 3) = m + d"
      by (rule wave_top1 [OF u(1,2), where k = "0"]) (simp add: h field_simps)
    have c1: "colorsys_v m (m + d) (h / 6) = m"
      by (rule wave_bot2 [OF u(1,2), where k = "- 1"]) (simp add: h field_simps)
    have c2: "colorsys_v m (m + d) (h / 6 - 1 / 3) = m + d - u * d"
      by (rule wave_fall [OF u(1,2), where k = "- 1"]) (simp add: h field_simps)
    show ?thesis using c0 c1 c2 by (simp add: mn mx u(3) M)
  next
    case gb
    define u where "u = (b - m) / d"
    have mn: "r = m" using gb unfolding M_def m_def by linarith
    have mx: "g = M" using gb unfolding M_def by linarith
    have u: "0 \<le> u" "u \<le> 1" "b = m + u * d"
      using gb d mn mx bounds by (simp_all add: u_def d_def field_simps)
    have h: "h = 2 + u" using gb d by (simp add: h_def mn u(3) M div)
    have c0: "colorsys_v m (m + d) (h / 6 + 1 / 3) = m"
      by (rule wave_bot1 [OF u(1,2), where k = "0"]) (simp add: h field_simps)
    have c1: "colorsys_v m (m + d) (h / 6) = m + d"
      by (rule wave_top2 [OF u(1,2), where k = "0"]) (simp add: h field_simps)
    have c2: "colorsys_v m (m + d) (h / 6 - 1 / 3) = m + u * d"
      by (rule wave_rise [OF u(1,2), where k = "0"]) (simp add: h field_simps)
    show ?thesis using c0 c1 c2 by (simp add: mn mx u(3) M)
  next
    case gr
    define u where "u = (M - r) / d"
    have mn: "b = m" using gr unfolding M_def m_def by linarith
    have mx: "g = M" using gr unfolding M_def by linarith
    have u: "0 \<le> u" "u \<le> 1" "r = m + d - u * d"
      using gr d mn mx bounds by (simp_all add: u_def d_def field_simps)
    have h: "h = 1 + u" using gr d by (simp add: h_def mn u(3) M div)
    have c0: "colorsys_v m (m + d) (h / 6 + 1 / 3) = m + d - u * d"
      by (rule wave_fall [OF u(1,2), where k = "0"]) (simp add: h field_simps)
    have c1: "colorsys_v m (m + d) (h / 6) = m + d"
      by (rule wave_top1 [OF u(1,2), where k = "0"]) (simp add: h field_simps)
    have c2: "colorsys_v m (m + d) (h / 6 - 1 / 3) = m"
      by (rule wave_bot2 [OF u(1,2), where k = "- 1"]) (simp add: h field_simps)
    show ?thesis using c0 c1 c2 by (simp add: mn mx u(3) M)
  next
    case br
    define u where "u = (r - m) / d"
    have mn: "g = m" using br unfolding M_def m_def by linarith
    have mx: "b = M" using br unfolding M_def by linarith
    have u: "0 \<le> u" "u \<le> 1" "r = m + u * d"
      using br d mn mx bounds by (simp_all add: u_def d_def field_simps)
    have h: "h = 4 + u" using br d by (simp add: h_def mn u(3) M div)
    have c0: "colorsys_v m (m + d) (h / 6 + 1 / 3) = m + u * d"
      by (rule wave_rise [OF u(1,2), where k = "1"]) (simp add: h field_simps)
    have c1: "colorsys_v m (m + d) (h / 6) = m"
      by (rule wave_bot1 [OF u(1,2), where k = "0"]) (simp add: h field_simps)
    have c2: "colorsys_v m (m + d) (h / 6 - 1 / 3) = m + d"
      by (rule wave_top2 [OF u(1,2), where k = "0"]) (simp add: h field_simps)
    show ?thesis using c0 c1 c2 by (simp add: mn mx u(3) M)
  next
    case bg
    define u where "u = (M - g) / d"
    have mn: "r = m" using bg unfolding M_def m_def by linarith
    have mx: "b = M" using bg unfolding M_def by linarith
    have u: "0 \<le> u" "u \<le> 1" "g = m + d - u * d"
      using bg d mn mx bounds by (simp_all add: u_def d_def field_simps)
    have h: "h = 3 + u" using bg d by (simp add: h_def mn u(3) M div)
    have c0: "colorsys_v m (m + d) (h / 6 + 1 / 3) = m"
      by (rule wave_bot2 [OF u(1,2), where k = "0"]) (simp add: h field_simps)
    have c1: "colorsys_v m (m + d) (h / 6) = m + d - u * d"
      by (rule wave_fall [OF u(1,2), where k = "0"]) (simp add: h field_simps)
    have c2: "colorsys_v m (m + d) (h / 6 - 1 / 3) = m + d"
      by (rule wave_top1 [OF u(1,2), where k = "0"]) (simp add: h field_simps)
    show ?thesis using c0 c1 c2 by (simp add: mn mx u(3) M)
  qed
  then show "colorsys_v m M (h / 6 + 1 / 3) = r" "colorsys_v m M (h / 6) = g"
    "colorsys_v m M (h / 6 - 1 / 3) = b" by simp_all
qed

lemma colorsys_v_frac0: "colorsys_v m1 m2 (frac a) = colorsys_v m1 m2 a"
  using colorsys_v_frac [of m1 m2 a 0] by simp

lemma colorsys_v_turn:
  "colorsys_v m1 m2 (frac (frac a + 1 / 2) + c) = m1 + m2 - colorsys_v m1 m2 (a + c)"
proof -
  have e1: "(frac a + 1 / 2) + c = frac a + (c + 1 / 2)" by simp
  have e2: "a + (c + 1 / 2) = (a + c) + 1 / 2" by simp
  have "colorsys_v m1 m2 (frac (frac a + 1 / 2) + c) = colorsys_v m1 m2 ((frac a + 1 / 2) + c)"
    by (rule colorsys_v_frac)
  also have "\<dots> = colorsys_v m1 m2 (frac a + (c + 1 / 2))"
    by (simp only: e1)
  also have "\<dots> = colorsys_v m1 m2 (a + (c + 1 / 2))"
    by (rule colorsys_v_frac)
  also have "\<dots> = colorsys_v m1 m2 ((a + c) + 1 / 2)"
    by (simp only: e2)
  also have "\<dots> = m1 + m2 - colorsys_v m1 m2 (a + c)"
    by (rule colorsys_v_half)
  finally show ?thesis .
qed

lemma hls_to_rgb_wave:
  fixes M m :: real
  assumes "m < M" "0 \<le> m" "M \<le> 1"
  defines "l \<equiv> (M + m) / 2"
  defines "s \<equiv> (if l \<le> 1 / 2 then (M - m) / (M + m) else (M - m) / (2 - M - m))"
  shows "s \<noteq> 0"
    and "hls_to_rgb h l s = (colorsys_v m M (h + 1 / 3), colorsys_v m M h, colorsys_v m M (h - 1 / 3))"
proof -
  have pos: "0 < M + m" "0 < 2 - M - m" using assms(1-3) by simp_all
  show s: "s \<noteq> 0" using assms(1) pos by (simp add: s_def)
  have m2: "(if l \<le> 1 / 2 then l * (1 + s) else l + s - l * s) = M"
  proof (cases "l \<le> 1 / 2")
    case True
    then have "l * (1 + s) = (M + m) / 2 * (1 + (M - m) / (M + m))" by (simp add: s_def l_def)
    also have "\<dots> = M" using pos by (simp add: field_simps)
    finally show ?thesis using True by simp
  next
    case False
    define q where "q = 2 - M - m"
    have q: "0 < q" using pos by (simp add: q_def)
    have sq: "s = (M - m) / q" using False by (simp add: s_def q_def)
    have lq: "1 - l = q / 2" by (simp add: l_def q_def field_simps)
    have "l + s - l * s = l + s * (1 - l)" by (simp add: algebra_simps)
    also have "s * (1 - l) = (M - m) / 2" using q by (simp add: sq lq)
    also have "l + (M - m) / 2 = M" by (simp add: l_def field_simps)
    finally show ?thesis using False by simp
  qed
  have m1: "2 * l - M = m" by (simp add: l_def field_simps)
  show "hls_to_rgb h l s = (colorsys_v m M (h + 1 / 3), colorsys_v m M h, colorsys_v m M (h - 1 / 3))"
    unfolding hls_to_rgb_def Let_def m2 m1 using s by simp
qed

lemma complement_real:
  fixes r g b :: real
  assumes "0 \<le> r" "r \<le> 1" "0 \<le> g" "g \<le> 1" "0 \<le> b" "b \<le> 1"
  defines "M \<equiv> max (max r g) b" and "m \<equiv> min (min r g) b"
  shows "\<exists>h l s. rgb_to_hls r g b = Inr (h, l, s)
           \<and> hls_to_rgb (frac (h + 1 / 2)) l s = (M + m - r, M + m - g, M + m - b)"
proof (cases "m = M")
  case True
  have bounds: "r \<le> M" "g \<le> M" "b \<le> M" "m \<le> r" "m \<le> g" "m \<le> b"
    by (simp_all add: M_def m_def)
  with True have eq: "r = M" "g = M" "b = M" by simp_all
  have "rgb_to_hls r g b = Inr (0, (M + m) / 2, 0)"
    using True by (simp add: rgb_to_hls_def Let_def M_def m_def)
  moreover have "hls_to_rgb (frac (0 + 1 / 2)) ((M + m) / 2) 0 = (M + m - r, M + m - g, M + m - b)"
    using True by (simp add: hls_to_rgb_def eq)
  ultimately show ?thesis by blast
next
  case False
  have bounds: "r \<le> M" "g \<le> M" "b \<le> M" "m \<le> r" "m \<le> g" "m \<le> b"
    by (simp_all add: M_def m_def)
  have lt: "m < M" using False bounds by linarith
  have rng: "0 \<le> m" "M \<le> 1" using assms(1-6) by (simp_all add: M_def m_def)
  define l where "l = (M + m) / 2"
  define s where "s = (if l \<le> 1 / 2 then (M - m) / (M + m) else (M - m) / (2 - M - m))"
  define h where "h = (if r = M then (M - b) / (M - m) - (M - g) / (M - m)
                  else if g = M then 2 + (M - r) / (M - m) - (M - b) / (M - m)
                  else 4 + (M - g) / (M - m) - (M - r) / (M - m))"
  have pos: "M + m \<noteq> 0" "2 - M - m \<noteq> 0" using lt rng by simp_all
  have hls: "rgb_to_hls r g b = Inr (frac (h / 6), l, s)"
    using False pos
    unfolding rgb_to_hls_def Let_def M_def [symmetric] m_def [symmetric] h_def s_def l_def
    by simp
  note wave = hls_to_rgb_wave [OF lt rng, folded l_def, folded s_def]
  note ch = hue_channels [of r g b, folded M_def m_def, folded h_def, OF False]
  have a: "colorsys_v m M (frac (frac (h / 6) + 1 / 2) + 1 / 3) = M + m - r"
    using colorsys_v_turn [of m M "h / 6" "1 / 3"] ch(1) by simp
  have b: "colorsys_v m M (frac (frac (h / 6) + 1 / 2)) = M + m - g"
    using colorsys_v_turn [of m M "h / 6" 0] ch(2) by simp
  have c: "colorsys_v m M (frac (frac (h / 6) + 1 / 2) - 1 / 3) = M + m - b"
    using colorsys_v_turn [of m M "h / 6" "- (1 / 3)"] ch(3) by simp
  have "hls_to_rgb (frac (frac (h / 6) + 1 / 2)) l s = (M + m - r, M + m - g, M + m - b)"
    by (simp only: wave(2) a b c)
  with hls show ?thesis by blast
qed

lemma py_round_of_int: "py_round (of_int n) = n"
  by (simp add: py_round_def)

lemma complementary_color_steps:
  assumes "0 \<le> cr" "cr \<le> 255" "0 \<le> cg" "cg \<le> 255" "0 \<le> cb" "cb \<le> 255"
  defines "M \<equiv> max (max cr cg) cb" and "m \<equiv> min (min cr cg) cb"
  shows "\<exists>h l s. rgb_to_hls (of_int cr / 255) (of_int cg / 255) (of_int cb / 255) = Inr (h, l, s)
           \<and> hls_to_rgb (frac (h + 1 / 2)) l s
               = (of_int (M + m - cr) / 255, of_int (M + m - cg) / 255, of_int (M + m - cb) / 255)"
proof -
  let ?r = "real_of_int cr / 255" and ?g = "real_of_int cg / 255" and ?b = "real_of_int cb / 255"
  have mx: "max (max ?r ?g) ?b = of_int M / 255"
    unfolding M_def by (simp add: max_def divide_right_mono)
  have mn: "min (min ?r ?g) ?b = of_int m / 255"
    unfolding m_def by (simp add: min_def divide_right_mono)
  have rng: "0 \<le> ?r" "?r \<le> 1" "0 \<le> ?g" "?g \<le> 1" "0 \<le> ?b" "?b \<le> 1"
    using assms(1-6) by simp_all
  from complement_real [OF rng] obtain h l s where
    hls: "rgb_to_hls ?r ?g ?b = Inr (h, l, s)" and
    conv: "hls_to_rgb (frac (h + 1 / 2)) l s =
             (max (max ?r ?g) ?b + min (min ?r ?g) ?b - ?r,
              max (max ?r ?g) ?b + min (min ?r ?g) ?b - ?g,
              max (max ?r ?g) ?b + min (min ?r ?g) ?b - ?b)"
    by blast
  have "hls_to_rgb (frac (h + 1 / 2)) l s
          = (of_int (M + m - cr) / 255, of_int (M + m - cg) / 255, of_int (M + m - cb) / 255)"
    unfolding conv mx mn by (simp add: field_simps)
  with hls show ?thesis by blast
qed

lemma complementary_color_closed:
  assumes "0 \<le> cr" "cr \<le> 255" "0 \<le> cg" "cg \<le> 255" "0 \<le> cb" "cb \<le> 255"
  shows "complementary_color (cr, cg, cb) =
           Inr (max (max cr cg) cb + min (min cr cg) cb - cr,
                max (max cr cg) cb + min (min cr cg) cb - cg,
                max (max cr cg) cb + min (min cr cg) cb - cb)"
proof -
  from complementary_color_steps [OF assms] obtain h l s where
    "rgb_to_hls (of_int cr / 255) (of_int cg / 255) (of_int cb / 255) = Inr (h, l, s)"
    "hls_to_rgb (frac (h + 1 / 2)) l s
       = (of_int (max (max cr cg) cb + min (min cr cg) cb - cr) / 255,
          of_int (max (max cr cg) cb + min (min cr cg) cb - cg) / 255,
          of_int (max (max cr cg) cb + min (min cr cg) cb - cb) / 255)"
    by blast
  then show ?thesis
    by (simp add: complementary_color_def py_round_of_int del: of_int_diff of_int_add)
qed







text \<open>
  Claim C10. For every achromatic triple (three equal channels from 0 to 255) the
  complement is the triple itself; its saturation is zero.
\<close>

theorem complement_achromatic:
  assumes "0 \<le> v" "v \<le> 255"
  shows "complementary_color (v, v, v) = Inr (v, v, v)
         \<and> rgb_to_hls (of_int v / 255) (of_int v / 255) (of_int v / 255) = Inr (0, of_int v / 255, 0)"
proof
  show "complementary_color (v, v, v) = Inr (v, v, v)"
    using complementary_color_closed [OF assms assms assms] by simp
  show "rgb_to_hls (of_int v / 255) (of_int v / 255) (of_int v / 255) = Inr (0, of_int v / 255, 0)"
    by (simp add: rgb_to_hls_def)
qed

theorem complement_achromatic_witness:
  "(0::int) \<le> 7 \<and> (7::int) \<le> 255 \<and> complementary_color (7, 7, 7) = Inr (7, 7, 7)"
  using complement_achromatic [of 7] by simp

subsection \<open>Palette extraction\<close>

lemma astype_int_range:
  assumes "0 \<le> x" "x \<le> 255"
  shows "0 \<le> astype_int x" "astype_int x \<le> 255" "astype_int x = \<lfloor>x\<rfloor>"
proof -
  show f: "astype_int x = \<lfloor>x\<rfloor>" using assms by (simp add: astype_int_def)
  show "0 \<le> astype_int x" using assms by (simp add: f)
  have "\<lfloor>x\<rfloor> \<le> \<lfloor>255 :: real\<rfloor>" using assms(2) by (rule floor_mono)
  then show "astype_int x \<le> 255" by (simp add: f)
qed

lemma astype_int_towards_zero:
  "\<bar>real_of_int (astype_int x)\<bar> \<le> \<bar>x\<bar>" "\<bar>x - real_of_int (astype_int x)\<bar> < 1"
  by (simp_all add: astype_int_def) linarith+

lemma extract_palette_Inr:
  assumes "kmeans w (Some 0) k pixels = Inr cs"
  shows "extract_palette fl kmeans w pixels k =
           Inr (map (\<lambda>c. \<lparr>rgb = c\<rparr>)
                  (sort_key (luminance fl)
                     (map (\<lambda>(x, y, z). (astype_int x, astype_int y, astype_int z)) cs)))"
  using assms by (simp add: extract_palette_def)

lemma extract_palette_Inl:
  assumes "kmeans w (Some 0) k pixels = Inl e"
  shows "extract_palette fl kmeans w pixels k = Inl e"
  using assms by (simp add: extract_palette_def)

lemma extract_palette_Inr_iff:
  "extract_palette fl kmeans w pixels k = Inr palette \<longleftrightarrow>
     (\<exists>cs. kmeans w (Some 0) k pixels = Inr cs
        \<and> palette = map (\<lambda>c. \<lparr>rgb = c\<rparr>)
                  (sort_key (luminance fl)
                     (map (\<lambda>(x, y, z). (astype_int x, astype_int y, astype_int z)) cs)))"
  by (cases "kmeans w (Some 0) k pixels") (auto simp: extract_palette_def)

text \<open>
  Claim C1. With an engine that keeps the contract of the specification, for every
  \<open>k \<ge> 1\<close> and every list of at least \<open>k\<close> samples \<^verbatim>\<open>extract_palette\<close> returns a palette of
  exactly \<open>k\<close> entries, and every channel of every entry is an integer from 0 to 255.
\<close>

theorem extract_palette_length_range:
  assumes "kmeans_contract kmeans" "1 \<le> k" "k \<le> int (length pixels)"
  shows "\<exists>palette. extract_palette fl kmeans w pixels k = Inr palette
           \<and> int (length palette) = k \<and> (\<forall>p \<in> set palette. valid_rgb (rgb p))"
proof -
  from assms obtain cs where
    cs: "kmeans w (Some 0) k pixels = Inr cs" "int (length cs) = k" "list_all centroid_in_range cs"
    unfolding kmeans_contract_def by blast
  let ?centers = "map (\<lambda>(x, y, z). (astype_int x, astype_int y, astype_int z)) cs"
  let ?palette = "map (\<lambda>c. \<lparr>rgb = c\<rparr>) (sort_key (luminance fl) ?centers)"
  have valid: "valid_rgb c" if "c \<in> set ?centers" for c
  proof -
    from that obtain x y z where xyz: "(x, y, z) \<in> set cs"
      "c = (astype_int x, astype_int y, astype_int z)" by auto
    with cs(3) have "centroid_in_range (x, y, z)" by (auto simp: list_all_iff)
    then show ?thesis
      by (simp add: xyz(2) valid_rgb_def centroid_in_range_def astype_int_range)
  qed
  have "extract_palette fl kmeans w pixels k = Inr ?palette"
    using cs(1) by (rule extract_palette_Inr)
  moreover have "int (length ?palette) = k" using cs(2) by simp
  moreover have "\<forall>p \<in> set ?palette. valid_rgb (rgb p)" using valid by auto
  ultimately show ?thesis by blast
qed

lemma byte_real_range:
  fixes a :: "8 word"
  shows "0 \<le> (unsigned a :: real)" "(unsigned a :: real) \<le> 255"
proof -
  have "unat a < 256" using unsigned_less [of a, where 'a = nat] by simp
  then have "unat a \<le> 255" by simp
  then have "real (unat a) \<le> real 255" by (simp only: of_nat_le_iff)
  then show "(unsigned a :: real) \<le> 255" by simp
  have "0 \<le> real (unat a)" by (rule of_nat_0_le_iff)
  then show "0 \<le> (unsigned a :: real)" by simp
qed

lemma first_k_contract: "kmeans_contract first_k_kmeans"
  unfolding kmeans_contract_def
proof (intro allI impI)
  fix w :: nat and rs :: "int option" and k :: int and px :: "pixel list"
  assume k: "1 \<le> k \<and> k \<le> int (length px)"
  let ?src = "case rs of None \<Rightarrow> rotate w px | Some seed \<Rightarrow> px"
  let ?cs = "map pixel_centroid (take (nat k) ?src)"
  have len: "length ?src = length px" by (cases rs) simp_all
  have "px \<noteq> []" using k by auto
  with k have "first_k_kmeans w rs k px = Inr ?cs" by (simp add: first_k_kmeans_def)
  moreover have "int (length ?cs) = k" using k len by (auto simp: min_def)
  moreover have "centroid_in_range (pixel_centroid p)" for p :: pixel
  proof -
    obtain r g b where p: "p = (r, g, b)" by (cases p) auto
    show ?thesis by (simp add: p pixel_centroid_def centroid_in_range_def byte_real_range)
  qed
  then have "list_all centroid_in_range ?cs" by (simp add: list_all_iff)
  ultimately show "\<exists>cs. first_k_kmeans w rs k px = Inr cs \<and> int (length cs) = k
                     \<and> list_all centroid_in_range cs" by blast
qed

theorem extract_palette_length_range_witness:
  "kmeans_contract first_k_kmeans \<and> (1::int) \<le> 2
   \<and> (2::int) \<le> int (length [(255, 255, 255), (0, 0, 0), (9, 9, 9) :: pixel])
   \<and> (\<exists>palette. extract_palette (\<lambda>x. x) first_k_kmeans 0 [(255, 255, 255), (0, 0, 0), (9, 9, 9)] 2
          = Inr palette
        \<and> int (length palette) = 2 \<and> (\<forall>p \<in> set palette. valid_rgb (rgb p)))"
  using extract_palette_length_range [OF first_k_contract, of 2 "[(255, 255, 255), (0, 0, 0), (9, 9, 9)]" "\<lambda>x. x" 0]
    first_k_contract by simp

lemma sorted_map_palette:
  "sorted (map (\<lambda>p. luminance fl (rgb p)) (map (\<lambda>c. \<lparr>rgb = c\<rparr>) (sort_key (luminance fl) cs)))"
proof -
  have "map (\<lambda>p. luminance fl (rgb p)) (map (\<lambda>c. \<lparr>rgb = c\<rparr>) (sort_key (luminance fl) cs))
          = map (luminance fl) (sort_key (luminance fl) cs)"
    by (simp add: comp_def)
  then show ?thesis by (simp only: sorted_sort_key)
qed

lemma stable_map_palette:
  "filter (\<lambda>p. luminance fl (rgb p) = v) (map (\<lambda>c. \<lparr>rgb = c\<rparr>) (sort_key (luminance fl) cs))
     = map (\<lambda>c. \<lparr>rgb = c\<rparr>) (filter (\<lambda>c. luminance fl c = v) cs)"
proof -
  have "filter (\<lambda>p. luminance fl (rgb p) = v) (map (\<lambda>c. \<lparr>rgb = c\<rparr>) (sort_key (luminance fl) cs))
          = map (\<lambda>c. \<lparr>rgb = c\<rparr>) (filter (\<lambda>c. luminance fl c = v) (sort_key (luminance fl) cs))"
    by (simp add: filter_map comp_def)
  then show ?thesis by (simp only: sort_key_stable)
qed

text \<open>
  Claim C2. Every palette that \<^verbatim>\<open>extract_palette\<close> returns is ordered by non-decreasing
  luminance, and the entries of equal luminance are in the order in which the engine
  emitted their centroids. This holds for the luminance as computed with any rounding \<open>fl\<close>
  of the float operations, the exact sum included.
\<close>

theorem extract_palette_sorted_stable:
  assumes "extract_palette fl kmeans w pixels k = Inr palette"
  shows "sorted (map (\<lambda>p. luminance fl (rgb p)) palette)
         \<and> (\<exists>cs. kmeans w (Some 0) k pixels = Inr cs
              \<and> (\<forall>v. filter (\<lambda>p. luminance fl (rgb p) = v) palette
                       = map (\<lambda>c. \<lparr>rgb = c\<rparr>)
                           (filter (\<lambda>c. luminance fl c = v)
                              (map (\<lambda>(x, y, z). (astype_int x, astype_int y, astype_int z)) cs))))"
proof -
  from assms obtain cs where
    cs: "kmeans w (Some 0) k pixels = Inr cs" and
    pal: "palette = map (\<lambda>c. \<lparr>rgb = c\<rparr>)
                     (sort_key (luminance fl)
                        (map (\<lambda>(x, y, z). (astype_int x, astype_int y, astype_int z)) cs))"
    unfolding extract_palette_Inr_iff by blast
  have "sorted (map (\<lambda>p. luminance fl (rgb p)) palette)"
    unfolding pal by (rule sorted_map_palette)
  moreover have "\<forall>v. filter (\<lambda>p. luminance fl (rgb p) = v) palette
                       = map (\<lambda>c. \<lparr>rgb = c\<rparr>)
                           (filter (\<lambda>c. luminance fl c = v)
                              (map (\<lambda>(x, y, z). (astype_int x, astype_int y, astype_int z)) cs))"
    unfolding pal by (simp only: stable_map_palette) simp
  ultimately show ?thesis using cs by blast
qed

lemma luminance_exact:
  "luminance (\<lambda>x. x) (r, g, b) = (2126 * of_int r + 7152 * of_int g + 722 * of_int b) / 10000"
  by (simp add: luminance_def field_simps)

lemma first_k_tie_example:
  "extract_palette (\<lambda>x. x) first_k_kmeans 0
       [(255, 255, 255), (3, 0, 219), (0, 23, 0), (0, 0, 0), (9, 9, 9)] 4
     = Inr [\<lparr>rgb = (0, 0, 0)\<rparr>, \<lparr>rgb = (3, 0, 219)\<rparr>, \<lparr>rgb = (0, 23, 0)\<rparr>, \<lparr>rgb = (255, 255, 255)\<rparr>]"
  by (simp add: extract_palette_def first_k_kmeans_def pixel_centroid_def astype_int_def
      luminance_exact)

theorem extract_palette_sorted_stable_witness:
  "extract_palette (\<lambda>x. x) first_k_kmeans 0
       [(255, 255, 255), (3, 0, 219), (0, 23, 0), (0, 0, 0), (9, 9, 9)] 4
     = Inr [\<lparr>rgb = (0, 0, 0)\<rparr>, \<lparr>rgb = (3, 0, 219)\<rparr>, \<lparr>rgb = (0, 23, 0)\<rparr>, \<lparr>rgb = (255, 255, 255)\<rparr>]
   \<and> luminance (\<lambda>x. x) (3, 0, 219) = luminance (\<lambda>x. x) (0, 23, 0)
   \<and> sorted (map (\<lambda>p. luminance (\<lambda>x. x) (rgb p))
        [\<lparr>rgb = (0, 0, 0)\<rparr>, \<lparr>rgb = (3, 0, 219)\<rparr>, \<lparr>rgb = (0, 23, 0)\<rparr>, \<lparr>rgb = (255, 255, 255)\<rparr>])"
  using extract_palette_sorted_stable [OF first_k_tie_example] first_k_tie_example
  by (simp add: luminance_exact)

text \<open>
  Claim C3. \<^verbatim>\<open>extract_palette\<close> is deterministic: it calls the engine with the fixed seed 0,
  so with an engine whose result for a fixed seed depends on the seed, \<open>k\<close> and the samples
  only, two calls with the same samples and the same \<open>k\<close> return the same result, whatever
  else differs between the calls.
\<close>

theorem extract_palette_deterministic:
  assumes "seeded_deterministic kmeans"
  shows "extract_palette fl kmeans w pixels k = extract_palette fl kmeans w' pixels k"
proof -
  have "kmeans w (Some 0) k pixels = kmeans w' (Some 0) k pixels"
    using assms unfolding seeded_deterministic_def by blast
  then show ?thesis by (simp add: extract_palette_def)
qed

lemma first_k_seeded: "seeded_deterministic first_k_kmeans"
  by (simp add: seeded_deterministic_def first_k_kmeans_def)

text \<open>Without a seed the result of this engine depends on its first argument.\<close>

lemma first_k_unseeded:
  "first_k_kmeans 0 None 1 [(1, 2, 3), (4, 5, 6)] \<noteq> first_k_kmeans 1 None 1 [(1, 2, 3), (4, 5, 6)]"
  by (simp add: first_k_kmeans_def pixel_centroid_def rotate1_def rotate_def)

theorem extract_palette_deterministic_witness:
  "seeded_deterministic first_k_kmeans
   \<and> extract_palette (\<lambda>x. x) first_k_kmeans 0 [(1, 2, 3), (4, 5, 6)] 1
       = extract_palette (\<lambda>x. x) first_k_kmeans 1 [(1, 2, 3), (4, 5, 6)] 1
   \<and> extract_palette (\<lambda>x. x) first_k_kmeans 0 [(1, 2, 3), (4, 5, 6)] 1 = Inr [\<lparr>rgb = (1, 2, 3)\<rparr>]"
proof -
  have "extract_palette (\<lambda>x. x) first_k_kmeans 0 [(1, 2, 3), (4, 5, 6)] 1 = Inr [\<lparr>rgb = (1, 2, 3)\<rparr>]"
    by (simp add: extract_palette_def first_k_kmeans_def pixel_centroid_def astype_int_def)
  then show ?thesis
    using extract_palette_deterministic [OF first_k_seeded, of "\<lambda>x. x" 0 "[(1, 2, 3), (4, 5, 6)]" 1 1]
      first_k_seeded by simp
qed

text \<open>
  Claim C4, as amended. \<^verbatim>\<open>extract_palette\<close> converts each coordinate of each centroid to an
  integer by cutting off the fraction, towards zero, and does not clamp; the entries of the
  palette are the centroids so converted. For a coordinate from 0 to 255 the channel is the
  floor of the coordinate, an integer from 0 to 255.
\<close>

theorem extract_palette_truncates:
  assumes "kmeans w (Some 0) k pixels = Inr cs"
  shows "\<exists>palette. extract_palette fl kmeans w pixels k = Inr palette
           \<and> mset (map rgb palette)
               = mset (map (\<lambda>(x, y, z). (astype_int x, astype_int y, astype_int z)) cs)
           \<and> (\<forall>x. \<bar>real_of_int (astype_int x)\<bar> \<le> \<bar>x\<bar> \<and> \<bar>x - real_of_int (astype_int x)\<bar> < 1)
           \<and> (\<forall>x. 0 \<le> x \<and> x \<le> 255 \<longrightarrow>
                  astype_int x = \<lfloor>x\<rfloor> \<and> 0 \<le> astype_int x \<and> astype_int x \<le> 255)"
proof -
  let ?centers = "map (\<lambda>(x, y, z). (astype_int x, astype_int y, astype_int z)) cs"
  let ?palette = "map (\<lambda>c. \<lparr>rgb = c\<rparr>) (sort_key (luminance fl) ?centers)"
  have "extract_palette fl kmeans w pixels k = Inr ?palette"
    using assms by (rule extract_palette_Inr)
  moreover have "map rgb ?palette = sort_key (luminance fl) ?centers"
    by (simp add: comp_def)
  then have "mset (map rgb ?palette) = mset ?centers"
    by (simp only: mset_sort)
  moreover have "\<forall>x. \<bar>real_of_int (astype_int x)\<bar> \<le> \<bar>x\<bar> \<and> \<bar>x - real_of_int (astype_int x)\<bar> < 1"
    using astype_int_towards_zero by blast
  moreover have "\<forall>x. 0 \<le> x \<and> x \<le> 255 \<longrightarrow>
                  astype_int x = \<lfloor>x\<rfloor> \<and> 0 \<le> astype_int x \<and> astype_int x \<le> 255"
    using astype_int_range by blast
  ultimately show ?thesis by blast
qed

lemma mean_kmeans_example:
  "mean_kmeans 0 (Some 0) 1 [(0, 0, 0), (1, 1, 1), (1, 1, 1)] = Inr [(2 / 3, 2 / 3, 2 / 3)]"
  by (simp add: mean_kmeans_def)

theorem extract_palette_truncates_witness:
  "mean_kmeans 0 (Some 0) 1 [(0, 0, 0), (1, 1, 1), (1, 1, 1)] = Inr [(2 / 3, 2 / 3, 2 / 3)]
   \<and> (\<exists>palette. extract_palette (\<lambda>x. x) mean_kmeans 0 [(0, 0, 0), (1, 1, 1), (1, 1, 1)] 1 = Inr palette
         \<and> mset (map rgb palette) = {#(0, 0, 0)#})"
proof -
  have "astype_int (2 / 3) = 0" by (simp add: astype_int_def)
  then show ?thesis
    using extract_palette_truncates [where kmeans = mean_kmeans and fl = "\<lambda>x. x", OF mean_kmeans_example]
      mean_kmeans_example
    by auto
qed

text \<open>
  Claim C4 as stated fails: for the samples (0, 0, 0), (1, 1, 1), (1, 1, 1) and one cluster
  the centroid is (2/3, 2/3, 2/3); rounding to the nearest integer gives (1, 1, 1), the
  code returns (0, 0, 0).
\<close>

theorem extract_palette_rounding_counterexample:
  "extract_palette (\<lambda>x. x) mean_kmeans 0 [(0, 0, 0), (1, 1, 1), (1, 1, 1)] 1
     \<noteq> spec_extract_palette (\<lambda>x. x) mean_kmeans 0 [(0, 0, 0), (1, 1, 1), (1, 1, 1)] 1"
proof -
  have "extract_palette (\<lambda>x. x) mean_kmeans 0 [(0, 0, 0), (1, 1, 1), (1, 1, 1)] 1
          = Inr [\<lparr>rgb = (0, 0, 0)\<rparr>]"
    by (simp add: extract_palette_def mean_kmeans_example astype_int_def)
  moreover have "round (2 / 3 :: real) = 1" by (simp add: round_def)
  then have "spec_extract_palette (\<lambda>x. x) mean_kmeans 0 [(0, 0, 0), (1, 1, 1), (1, 1, 1)] 1
          = Inr [\<lparr>rgb = (1, 1, 1)\<rparr>]"
    by (simp add: spec_extract_palette_def mean_kmeans_example spec_round_clamp_def)
  ultimately show ?thesis by simp
qed

text \<open>
  Claim C9. With an engine that fails as the specification describes, palette extraction
  fails with \<open>InvalidArgument\<close> when \<open>k < 1\<close> or \<open>k\<close> exceeds the number of samples, and with
  \<open>EmptyInput\<close> when there is no sample. \<^verbatim>\<open>extract_palette\<close> fails exactly when the engine
  fails, with the engine's error: it replaces no failure by a value.
\<close>

theorem extract_palette_failures:
  assumes "kmeans_failures kmeans"
  shows "(k < 1 \<or> int (length pixels) < k \<and> pixels \<noteq> []
            \<longrightarrow> extract_palette fl kmeans w pixels k = Inl InvalidArgument)
       \<and> (pixels = [] \<and> 1 \<le> k \<longrightarrow> extract_palette fl kmeans w pixels k = Inl EmptyInput)
       \<and> (\<forall>e. extract_palette fl kmeans w pixels k = Inl e
                \<longleftrightarrow> kmeans w (Some 0) k pixels = Inl e)"
proof (intro conjI impI allI)
  assume "k < 1 \<or> int (length pixels) < k \<and> pixels \<noteq> []"
  then have "kmeans w (Some 0) k pixels = Inl InvalidArgument"
    using assms unfolding kmeans_failures_def by blast
  then show "extract_palette fl kmeans w pixels k = Inl InvalidArgument"
    by (rule extract_palette_Inl)
next
  assume "pixels = [] \<and> 1 \<le> k"
  then have "kmeans w (Some 0) k pixels = Inl EmptyInput"
    using assms unfolding kmeans_failures_def by blast
  then show "extract_palette fl kmeans w pixels k = Inl EmptyInput"
    by (rule extract_palette_Inl)
next
  fix e
  show "extract_palette fl kmeans w pixels k = Inl e \<longleftrightarrow> kmeans w (Some 0) k pixels = Inl e"
    by (cases "kmeans w (Some 0) k pixels") (simp_all add: extract_palette_def)
qed

lemma first_k_failures: "kmeans_failures first_k_kmeans"
  by (auto simp: kmeans_failures_def first_k_kmeans_def)

theorem extract_palette_failures_witness:
  "kmeans_failures first_k_kmeans
   \<and> extract_palette (\<lambda>x. x) first_k_kmeans 0 [(1, 2, 3)] 0 = Inl InvalidArgument
   \<and> extract_palette (\<lambda>x. x) first_k_kmeans 0 [(1, 2, 3)] 2 = Inl InvalidArgument
   \<and> extract_palette (\<lambda>x. x) first_k_kmeans 0 [] 1 = Inl EmptyInput"
  using extract_palette_failures [OF first_k_failures, of 0 "[(1, 2, 3)]" "\<lambda>x. x" 0]
    extract_palette_failures [OF first_k_failures, of 2 "[(1, 2, 3)]" "\<lambda>x. x" 0]
    extract_palette_failures [OF first_k_failures, of 1 "[]" "\<lambda>x. x" 0]
    first_k_failures
  by simp

end
